theory Spec2Isabelle
  imports Complex_Main "HOL-Library.Word"
begin

section \<open>Outcomes of a call\<close>

text \<open>
  The header \<^verbatim>\<open>embedded_utils.hpp\<close> is embedded shallowly. A call either returns
  normally or ends in one of the following ways:
  \<^item> \<open>Thrown m\<close>: \<^verbatim>\<open>throw std::runtime_error(std::string(m))\<close>;
  \<^item> \<open>Aborted\<close>: \<^verbatim>\<open>std::abort()\<close>;
  \<^item> \<open>Ill_Formed m\<close>: a \<^verbatim>\<open>static_assert\<close> with message \<open>m\<close> fails, the
    instantiation does not build;
  \<^item> \<open>Undefined_Behaviour\<close>: \<^verbatim>\<open>span[idx]\<close> is evaluated with \<open>idx\<close> not below
    \<^verbatim>\<open>size()\<close>, which the language leaves undefined.
\<close>

datatype failure =
    Thrown string
  | Aborted
  | Ill_Formed string
  | Undefined_Behaviour

text \<open>
  \<^verbatim>\<open>THROW_OR_PANIC\<close>. The macro \<^verbatim>\<open>EXCEPTIONS_ENABLED\<close> is fixed by the preprocessor;
  it is the first argument of every function that depends on it. The result type has
  a right summand for a normal return, which the body never produces.
\<close>

definition THROW_OR_PANIC :: "bool \<Rightarrow> string \<Rightarrow> failure + unit" where
  "THROW_OR_PANIC EXCEPTIONS_ENABLED message =
     (if EXCEPTIONS_ENABLED then Inl (Thrown message) else Inl Aborted)"

section \<open>Spans\<close>

text \<open>
  A \<^verbatim>\<open>std::span<T>\<close> is modelled by the list of the elements it refers to. Its
  \<^verbatim>\<open>size()\<close> is a \<^verbatim>\<open>std::size_t\<close>: an unsigned machine integer of some width
  \<open>LENGTH('w)\<close>, with wrap-around arithmetic. Source and destination are distinct
  lists: the model does not cover overlapping spans.
\<close>

definition span_size :: "'a list \<Rightarrow> 'w::len word" where
  "span_size xs = of_nat (length xs)"

section \<open>Strided copy\<close>

text \<open>
  The loop of the first overload (lines 62 to 67):
  \<^verbatim>\<open>for (size_t i = StartIdx; i < SourceExtent && destIndex < DestExtent; i += N)
      destination[destIndex++] = source[i];\<close>
  \<open>SourceExtent\<close> and \<open>DestExtent\<close> are template arguments, so they are parameters of
  their own: they are the sizes of the spans only where both spans have a static extent.
  An element access \<^verbatim>\<open>span[idx]\<close> requires \<open>idx < size()\<close>; where that fails the
  run ends in \<open>Undefined_Behaviour\<close>. The result is the status and the state in which
  the loop ended: \<open>i\<close>, \<open>destIndex\<close> and the destination.
\<close>

function static_loop ::
  "'w::len word \<Rightarrow> 'w word \<Rightarrow> 'w word \<Rightarrow> 'a list \<Rightarrow> 'w word \<Rightarrow> 'w word \<Rightarrow> 'a list
     \<Rightarrow> (failure + unit) \<times> 'w word \<times> 'w word \<times> 'a list"
where
  "static_loop N SourceExtent DestExtent source i destIndex destination =
     (if i < SourceExtent \<and> destIndex < DestExtent
      then (if i < span_size source \<and> destIndex < span_size destination
            then static_loop N SourceExtent DestExtent source (i + N) (destIndex + 1)
                   (destination[unat destIndex := source ! unat i])
            else (Inl Undefined_Behaviour, i, destIndex, destination))
      else (Inr (), i, destIndex, destination))"
  by pat_completeness auto

lemma span_size_list_update [simp]: "span_size (xs[k := v]) = span_size xs"
  by (simp add: span_size_def)

lemma unat_succ_below: "(j :: 'w::len word) < b \<Longrightarrow> unat (j + 1) = Suc (unat j)"
proof -
  assume "j < b"
  then have "unat j < unat b" by (simp add: word_less_nat_alt)
  moreover have "unat b < 2 ^ LENGTH('w)" by (rule unsigned_less)
  ultimately have "Suc (unat j) < 2 ^ LENGTH('w)" by linarith
  then have "unat j + unat (1 :: 'w word) < 2 ^ LENGTH('w)" by simp
  then have "unat (j + 1) = unat j + unat (1 :: 'w word)"
    by (simp only: unat_add_lem [THEN iffD1])
  then show ?thesis by simp
qed

termination static_loop
proof (relation "measure (\<lambda>(N, SourceExtent, DestExtent, source, i, destIndex, destination).
         unat (span_size destination :: 'a word) - unat destIndex)")
  show "wf (measure (\<lambda>(N :: 'a word, SourceExtent :: 'a word, DestExtent :: 'a word,
              source :: 'b list, i :: 'a word, destIndex, destination :: 'b list).
         unat (span_size destination :: 'a word) - unat destIndex))"
    by simp
next
  fix N SourceExtent DestExtent i destIndex :: "'a word" and source destination :: "'b list"
  assume "i < SourceExtent \<and> destIndex < DestExtent"
    and "i < span_size source \<and> destIndex < span_size destination"
  then have lt: "destIndex < (span_size destination :: 'a word)" by simp
  from lt have "unat destIndex < unat (span_size destination :: 'a word)"
    by (simp add: word_less_nat_alt)
  with unat_succ_below [OF lt]
  show "((N, SourceExtent, DestExtent, source, i + N, destIndex + 1,
          destination[unat destIndex := source ! unat i]),
         (N, SourceExtent, DestExtent, source, i, destIndex, destination))
        \<in> measure (\<lambda>(N, SourceExtent, DestExtent, source, i, destIndex, destination).
             unat (span_size destination :: 'a word) - unat destIndex)"
    by simp
qed

text \<open>
  The loop of the dynamic-extent overload (lines 90 to 94):
  \<^verbatim>\<open>for (std::size_t i = StartIdx; i < std::size(source); i += N)
      destination[destIndex++] = source[i];\<close>
  The loop condition bounds only \<open>i\<close>. The write \<^verbatim>\<open>destination[destIndex]\<close> requires
  \<open>destIndex < size()\<close>; where that fails the run ends in \<open>Undefined_Behaviour\<close>.
  The result is the status, the final \<open>destIndex\<close> and the destination.
\<close>

function dyn_loop ::
  "'w::len word \<Rightarrow> 'a list \<Rightarrow> 'w word \<Rightarrow> 'w word \<Rightarrow> 'a list \<Rightarrow> (failure + unit) \<times> 'w word \<times> 'a list"
where
  "dyn_loop N source i destIndex destination =
     (if i < span_size source
      then (if destIndex < span_size destination
            then dyn_loop N source (i + N) (destIndex + 1)
                   (destination[unat destIndex := source ! unat i])
            else (Inl Undefined_Behaviour, destIndex, destination))
      else (Inr (), destIndex, destination))"
  by pat_completeness auto

termination dyn_loop
proof (relation "measure (\<lambda>(N, source, i, destIndex, destination).
         unat (span_size destination :: 'a word) - unat destIndex)")
  show "wf (measure (\<lambda>(N :: 'a word, source :: 'b list, i :: 'a word, destIndex, destination :: 'b list).
         unat (span_size destination :: 'a word) - unat destIndex))"
    by simp
next
  fix N i destIndex :: "'a word" and source destination :: "'b list"
  assume "i < span_size source" and lt: "destIndex < (span_size destination :: 'a word)"
  from lt have "unat destIndex < unat (span_size destination :: 'a word)"
    by (simp add: word_less_nat_alt)
  with unat_succ_below [OF lt]
  show "((N, source, i + N, destIndex + 1, destination[unat destIndex := source ! unat i]),
         (N, source, i, destIndex, destination))
        \<in> measure (\<lambda>(N, source, i, destIndex, destination).
             unat (span_size destination :: 'a word) - unat destIndex)"
    by simp
qed

text \<open>
  The first overload (lines 50 to 68), with its template arguments \<open>N\<close>, \<open>StartIdx\<close>,
  \<open>SourceExtent\<close> and \<open>DestExtent\<close>. The three \<^verbatim>\<open>static_assert\<close>s are evaluated
  in \<^verbatim>\<open>std::size_t\<close>, in the order of the source.
\<close>

definition copy_every_nth_static ::
  "'w::len word \<Rightarrow> 'w word \<Rightarrow> 'w word \<Rightarrow> 'w word \<Rightarrow> 'a list \<Rightarrow> 'a list
     \<Rightarrow> (failure + unit) \<times> 'a list"
where
  "copy_every_nth_static N StartIdx SourceExtent DestExtent source destination =
     (if \<not> (StartIdx < SourceExtent \<and> StartIdx \<ge> 0)
      then (Inl (Ill_Formed ''StartIdx must be within the source extent''), destination)
      else if \<not> N > 0
      then (Inl (Ill_Formed ''N must be greater than 0''), destination)
      else if \<not> ((SourceExtent - StartIdx + N - 1) div N \<le> DestExtent)
      then (Inl (Ill_Formed ''Destination extent may not be sufficient''), destination)
      else (case static_loop N SourceExtent DestExtent source StartIdx 0 destination of
              (status, i, destIndex, destination') \<Rightarrow> (status, destination')))"

text \<open>
  The extent a span type carries: its size for a span of static extent, and
  \<^verbatim>\<open>std::dynamic_extent\<close>, the largest \<^verbatim>\<open>std::size_t\<close>, for \<^verbatim>\<open>std::span<T>\<close>.
  A call with two spans of dynamic extent selects the second overload; a call with
  exactly one instantiates the first with \<open>dynamic_extent\<close> for that span.
\<close>

definition dynamic_extent :: "'w::len word" where
  "dynamic_extent = - 1"

definition extent_of :: "'w::len word \<Rightarrow> 'a list \<Rightarrow> bool" where
  "extent_of E xs = (E = span_size xs \<or> E = dynamic_extent)"

text \<open>
  The dynamic-extent overload (lines 70 to 95). \<open>requiredSize\<close> is line 82, computed in
  \<^verbatim>\<open>std::size_t\<close>. A call of \<open>THROW_OR_PANIC\<close> ends the function with the
  destination as it is at that point; the code after the call is reached only if the
  call returns.
\<close>

definition requiredSize :: "'w::len word \<Rightarrow> 'w word \<Rightarrow> 'a list \<Rightarrow> 'w word" where
  "requiredSize N StartIdx source = (span_size source - StartIdx + N - 1) div N"

definition copy_every_nth_dyn ::
  "bool \<Rightarrow> 'w::len word \<Rightarrow> 'w word \<Rightarrow> 'a list \<Rightarrow> 'a list \<Rightarrow> (failure + unit) \<times> 'a list"
where
  "copy_every_nth_dyn EXCEPTIONS_ENABLED N StartIdx source destination =
     (if \<not> N > 0
      then (Inl (Ill_Formed ''N must be greater than 0''), destination)
      else
        case (if StartIdx > span_size source \<or> StartIdx < 0
              then THROW_OR_PANIC EXCEPTIONS_ENABLED ''Invalid start index''
              else Inr ()) of
          Inl f \<Rightarrow> (Inl f, destination)
        | Inr _ \<Rightarrow>
            (case (if requiredSize N StartIdx source > span_size destination
                   then THROW_OR_PANIC EXCEPTIONS_ENABLED
                          ''Destination container does not have sufficient size, ''
                   else Inr ()) of
               Inl f \<Rightarrow> (Inl f, destination)
             | Inr _ \<Rightarrow>
                 (case dyn_loop N source StartIdx 0 destination of
                    (status, destIndex, destination') \<Rightarrow> (status, destination'))))"

section \<open>Mean\<close>

text \<open>
  \<^verbatim>\<open>std::accumulate(first, last, init)\<close> runs \<^verbatim>\<open>init = std::move(init) + *first\<close>
  from the first element to the last. The accumulator has the type of \<^verbatim>\<open>0.0\<close>.
  The arithmetic of \<^verbatim>\<open>double\<close> is not interpreted: \<open>fadd\<close> stands for
  \<^verbatim>\<open>acc + x\<close> converted back to the accumulator type, \<open>fdiv\<close> for the division of the
  sum by a \<^verbatim>\<open>std::size_t\<close>, \<open>fzero\<close> for \<^verbatim>\<open>0.0\<close>.
\<close>

fun accumulate :: "('f \<Rightarrow> 'e \<Rightarrow> 'f) \<Rightarrow> 'e list \<Rightarrow> 'f \<Rightarrow> 'f" where
  "accumulate fadd [] init = init"
| "accumulate fadd (x # xs) init = accumulate fadd xs (fadd init x)"


text \<open>The dynamic-extent overload (lines 113 to 124); \<^verbatim>\<open>empty()\<close> is \<^verbatim>\<open>size() == 0\<close>.\<close>

definition mean_dyn ::
  "bool \<Rightarrow> ('f \<Rightarrow> 'e \<Rightarrow> 'f) \<Rightarrow> ('f \<Rightarrow> 'w::len word \<Rightarrow> 'f) \<Rightarrow> 'f \<Rightarrow> 'e list \<Rightarrow> failure + 'f"
where
  "mean_dyn EXCEPTIONS_ENABLED fadd fdiv fzero source =
     (case (if (span_size source :: 'w word) = 0
            then THROW_OR_PANIC EXCEPTIONS_ENABLED ''Source container must be non-empty''
            else Inr ()) of
        Inl f \<Rightarrow> Inl f
      | Inr _ \<Rightarrow> Inr (fdiv (accumulate fadd source fzero) (span_size source)))"

section \<open>The specification's vocabulary\<close>

text \<open>
  The number of selected elements, \<open>ceil((S - StartIdx) / N)\<close>, over the rationals, and
  the selected elements \<open>source[StartIdx], source[StartIdx + N], ...\<close>, with
  mathematical (unbounded) indices.
\<close>

definition required_count :: "nat \<Rightarrow> nat \<Rightarrow> nat \<Rightarrow> nat" where
  "required_count S StartIdx N = nat \<lceil>(real S - real StartIdx) / real N\<rceil>"

definition every_nth :: "nat \<Rightarrow> nat \<Rightarrow> 'a list \<Rightarrow> nat \<Rightarrow> 'a list" where
  "every_nth N StartIdx source K = map (\<lambda>k. source ! (StartIdx + k * N)) [0..<K]"

text \<open>
  The same count in natural-number arithmetic, as the source writes it
  (\<open>(S - StartIdx + N - 1) / N\<close>) but without wrap-around; \<open>required_count_steps\<close>
  below shows that it is the ceiling.
\<close>

definition steps :: "nat \<Rightarrow> nat \<Rightarrow> nat \<Rightarrow> nat" where
  "steps S i n = (S - i + n - 1) div n"

section \<open>Arithmetic of the count\<close>

lemma steps_exhausted: "S \<le> i \<Longrightarrow> steps S i n = 0"
  by (cases "n = 0") (simp_all add: steps_def)

lemma steps_step:
  assumes "i < S" and "0 < n"
  shows "steps S i n = Suc (steps S (i + n) n)"
proof -
  from assms(1) obtain a where S: "S = i + Suc a"
    using less_imp_Suc_add [OF assms(1)] by auto
  show ?thesis
  proof (cases "n \<le> Suc a")
    case True
    then obtain b where a: "Suc a = n + b" by (auto simp: le_iff_add)
    from assms(2) obtain m where n: "n = Suc m" by (cases n) simp_all
    have "S - i + n - 1 = b + m + n" by (simp add: S a n)
    then have "steps S i n = (b + m + n) div n" by (simp only: steps_def)
    also have "\<dots> = Suc ((b + m) div n)" using assms(2) by simp
    also have "(b + m) div n = steps S (i + n) n"
    proof -
      have "S - (i + n) + n - 1 = b + m" by (simp add: S a n)
      then show ?thesis by (simp only: steps_def)
    qed
    finally show ?thesis .
  next
    case False
    then have "a < n" by simp
    then have "steps S i n = 1" using assms(2) by (simp add: steps_def S)
    moreover from False have "steps S (i + n) n = 0" by (simp add: steps_exhausted S)
    ultimately show ?thesis by simp
  qed
qed

lemma steps_bounds:
  assumes "0 < n"
  shows "S - i \<le> steps S i n * n" and "steps S i n * n < S - i + n"
proof -
  from assms obtain m where n: "n = Suc m" by (cases n) simp_all
  define a where "a = S - i + m"
  have e: "S - i + n - 1 = a" by (simp add: a_def n)
  have "a = a div n * n + a mod n" by simp
  moreover have "a mod n \<le> m" using n by (simp add: less_Suc_eq_le [symmetric])
  ultimately have "a \<le> a div n * n + m" and "a div n * n \<le> a" by linarith+
  then show "S - i \<le> steps S i n * n" and "steps S i n * n < S - i + n"
    unfolding steps_def e by (simp_all add: a_def n)
qed


lemma required_count_steps:
  assumes "0 < n"
  shows "required_count S i n = steps S i n"
proof (cases "S \<le> i")
  case True
  then have "real S - real i \<le> 0" by simp
  then have "(real S - real i) / real n \<le> 0"
    using assms by (simp only: divide_le_0_iff) simp
  then have "\<lceil>(real S - real i) / real n\<rceil> \<le> 0" by (simp only: ceiling_le_zero)
  with True show ?thesis by (simp add: required_count_def steps_exhausted)
next
  case False
  let ?q = "steps S i n"
  from False have d: "real S - real i = real (S - i)" by (simp only: of_nat_diff not_le less_imp_le)
  have n: "0 < real n" using assms by simp
  have "real (S - i) \<le> real (?q * n)"
    using steps_bounds(1) [OF assms, of S i] by (simp only: of_nat_le_iff)
  then have "real (S - i) \<le> real ?q * real n" by (simp only: of_nat_mult)
  then have up: "real (S - i) / real n \<le> real ?q"
    using n by (simp only: pos_divide_le_eq)
  have "real (?q * n) < real (S - i + n)"
    using steps_bounds(2) [OF assms, of S i] by (simp only: of_nat_less_iff)
  then have "real ?q * real n < real (S - i) + real n" by (simp only: of_nat_mult of_nat_add)
  then have "(real ?q - 1) * real n < real (S - i)" by (simp add: algebra_simps)
  then have lo: "real ?q - 1 < real (S - i) / real n"
    using n by (simp only: pos_less_divide_eq)
  have c: "\<lceil>real (S - i) / real n\<rceil> = int ?q"
  proof (rule ceiling_unique)
    show "of_int (int ?q) - 1 < real (S - i) / real n" using lo by (simp only: of_int_of_nat_eq)
    show "real (S - i) / real n \<le> of_int (int ?q)" using up by (simp only: of_int_of_nat_eq)
  qed
  have "required_count S i n = nat \<lceil>real (S - i) / real n\<rceil>"
    by (simp only: required_count_def d)
  also have "\<dots> = ?q" by (simp only: c nat_int)
  finally show ?thesis .
qed


lemma every_nth_Suc:
  "every_nth N i source (Suc K) = source ! i # every_nth N (i + N) source K"
  by (simp add: every_nth_def map_upt_Suc add.assoc del: upt_Suc)

lemma every_nth_0 [simp]: "every_nth N i source 0 = []"
  by (simp add: every_nth_def)

lemma length_every_nth [simp]: "length (every_nth N i source K) = K"
  by (simp add: every_nth_def)

lemma unat_span_size:
  "length xs < 2 ^ LENGTH('w) \<Longrightarrow> unat (span_size xs :: 'w::len word) = length xs"
  by (simp add: span_size_def unat_of_nat)

section \<open>The copy loops\<close>

text \<open>
  The run of the dynamic loop when the indices \<open>i, i + N, ...\<close> up to the first one
  that is not below the source size are representable, and the destination has room
  from \<open>destIndex\<close> on: it returns normally after \<open>steps\<close> iterations and has written
  the selected elements from \<open>destIndex\<close> on. Source and destination are distinct
  lists here and below: overlapping spans are not covered.
\<close>

lemma dyn_loop_run:
  fixes N i j :: "'w::len word"
  assumes "0 < unat N"
    and "length source < 2 ^ LENGTH('w)"
    and "length destination < 2 ^ LENGTH('w)"
    and "unat i + steps (length source) (unat i) (unat N) * unat N < 2 ^ LENGTH('w)"
    and "unat j + steps (length source) (unat i) (unat N) \<le> length destination"
  shows "dyn_loop N source i j destination =
           (Inr (), j + of_nat (steps (length source) (unat i) (unat N)),
            take (unat j) destination
              @ every_nth (unat N) (unat i) source (steps (length source) (unat i) (unat N))
              @ drop (unat j + steps (length source) (unat i) (unat N)) destination)"
  using assms
proof (induction N source i j destination rule: dyn_loop.induct)
  case (1 N source i destIndex destination)
  let ?S = "length source" and ?n = "unat N"
  note S = "1.prems"(2)
  have sz: "unat (span_size source :: 'w word) = ?S" by (rule unat_span_size [OF S])
  have dz: "unat (span_size destination :: 'w word) = length destination"
    by (rule unat_span_size [OF "1.prems"(3)])
  show ?case
  proof (cases "i < span_size source")
    case False
    then have "?S \<le> unat i" by (simp add: word_less_nat_alt sz)
    then have "steps ?S (unat i) ?n = 0" by (rule steps_exhausted)
    with False show ?thesis by simp
  next
    case True
    then have lt: "unat i < ?S" by (simp add: word_less_nat_alt sz)
    from steps_step [OF lt "1.prems"(1)]
    obtain K where K: "steps ?S (unat i) ?n = Suc K" and K': "steps ?S (unat i + ?n) ?n = K"
      by simp
    from "1.prems"(4) K have wr: "unat i + ?n + K * ?n < 2 ^ LENGTH('w)" by simp
    then have "unat i + unat N < 2 ^ LENGTH('w)" by linarith
    then have iN: "unat (i + N) = unat i + ?n" by (simp only: unat_add_lem [THEN iffD1])
    from "1.prems"(5) K have jlt: "unat destIndex < length destination" by linarith
    then have dlt: "destIndex < span_size destination" by (simp add: word_less_nat_alt dz)
    have j1: "unat (destIndex + 1) = Suc (unat destIndex)" by (rule unat_succ_below [OF dlt])
    let ?d = "destination[unat destIndex := source ! unat i]"
    have "dyn_loop N source (i + N) (destIndex + 1) ?d =
           (Inr (), destIndex + 1 + of_nat (steps ?S (unat (i + N)) ?n),
            take (unat (destIndex + 1)) ?d
              @ every_nth ?n (unat (i + N)) source (steps ?S (unat (i + N)) ?n)
              @ drop (unat (destIndex + 1) + steps ?S (unat (i + N)) ?n) ?d)"
    proof (rule "1.IH" [OF True dlt "1.prems"(1,2)])
      show "length ?d < 2 ^ LENGTH('w)" using "1.prems"(3) by simp
      show "unat (i + N) + steps ?S (unat (i + N)) ?n * ?n < 2 ^ LENGTH('w)"
        using wr by (simp add: iN K')
      show "unat (destIndex + 1) + steps ?S (unat (i + N)) ?n \<le> length ?d"
        using "1.prems"(5) by (simp add: j1 iN K K')
    qed
    then have run: "dyn_loop N source (i + N) (destIndex + 1) ?d =
           (Inr (), destIndex + 1 + of_nat K,
            take (Suc (unat destIndex)) ?d
              @ every_nth ?n (unat i + ?n) source K
              @ drop (Suc (unat destIndex) + K) ?d)"
      by (simp only: j1 iN K')
    have t: "take (Suc (unat destIndex)) ?d = take (unat destIndex) destination @ [source ! unat i]"
      using jlt by (simp add: take_Suc_conv_app_nth)
    have d: "drop (Suc (unat destIndex) + K) ?d = drop (unat destIndex + Suc K) destination"
      by simp
    have "dyn_loop N source i destIndex destination =
            dyn_loop N source (i + N) (destIndex + 1) ?d"
      using True dlt by simp
    also note run
    finally show ?thesis
      by (simp only: K t d every_nth_Suc) simp
  qed
qed




text \<open>
  The first overload's loop ends at once, without a write, when the destination is full
  or the source is exhausted; it never moves \<open>destIndex\<close> beyond \<open>DestExtent\<close> and
  never changes an element at or beyond \<open>DestExtent\<close>.
\<close>

lemma static_loop_destination_full:
  "\<not> destIndex < DestExtent \<Longrightarrow>
   static_loop N SourceExtent DestExtent source i destIndex destination =
     (Inr (), i, destIndex, destination)"
  by simp

lemma static_loop_source_exhausted:
  "\<not> i < SourceExtent \<Longrightarrow>
   static_loop N SourceExtent DestExtent source i destIndex destination =
     (Inr (), i, destIndex, destination)"
  by simp

lemma static_loop_exit:
  "static_loop N SourceExtent DestExtent source i j destination = (Inr (), i', j', d') \<Longrightarrow>
   \<not> (i' < SourceExtent \<and> j' < DestExtent)"
proof (induction N SourceExtent DestExtent source i j destination rule: static_loop.induct)
  case (1 N SourceExtent DestExtent source i destIndex destination)
  show ?case
  proof (cases "i < SourceExtent \<and> destIndex < DestExtent")
    case False
    with "1.prems" show ?thesis by auto
  next
    case True
    show ?thesis
    proof (cases "i < span_size source \<and> destIndex < span_size destination")
      case False
      with True "1.prems" show ?thesis by simp
    next
      case inb: True
      with True "1.prems" have "static_loop N SourceExtent DestExtent source (i + N) (destIndex + 1)
          (destination[unat destIndex := source ! unat i]) = (Inr (), i', j', d')"
        by simp
      from "1.IH" [OF True inb this] show ?thesis .
    qed
  qed
qed

lemma static_loop_within_extent:
  "static_loop N SourceExtent DestExtent source i j destination = (status, i', j', d') \<Longrightarrow>
   j \<le> DestExtent \<Longrightarrow>
   j' \<le> DestExtent \<and> length d' = length destination
   \<and> (\<forall>k. unat DestExtent \<le> k \<longrightarrow> d' ! k = destination ! k)"
proof (induction N SourceExtent DestExtent source i j destination rule: static_loop.induct)
  case (1 N SourceExtent DestExtent source i destIndex destination)
  show ?case
  proof (cases "i < SourceExtent \<and> destIndex < DestExtent")
    case False
    with "1.prems" show ?thesis by auto
  next
    case True
    show ?thesis
    proof (cases "i < span_size source \<and> destIndex < span_size destination")
      case False
      with True "1.prems" show ?thesis by auto
    next
      case inb: True
      let ?d = "destination[unat destIndex := source ! unat i]"
      from True have lt: "destIndex < DestExtent" by simp
      then have below: "unat destIndex < unat DestExtent" by (simp add: word_less_nat_alt)
      with unat_succ_below [OF lt] have le: "destIndex + 1 \<le> DestExtent"
        by (simp add: word_le_nat_alt)
      from True inb "1.prems"(1)
      have "static_loop N SourceExtent DestExtent source (i + N) (destIndex + 1) ?d
              = (status, i', j', d')"
        by simp
      from "1.IH" [OF True inb this le]
      have "j' \<le> DestExtent" and "length d' = length ?d"
        and "\<forall>k. unat DestExtent \<le> k \<longrightarrow> d' ! k = ?d ! k"
        by simp_all
      with below show ?thesis by auto
    qed
  qed
qed

text \<open>
  Where both extents are the sizes of the spans and the dynamic loop returns normally,
  the first overload's loop runs the same iterations and stops with the source
  exhausted. The dynamic loop either returns or writes past the destination.
\<close>

lemma static_loop_of_dyn:
  "dyn_loop N source i j destination = (Inr (), j', d') \<Longrightarrow>
   SourceExtent = span_size source \<Longrightarrow> DestExtent = span_size destination \<Longrightarrow>
   \<exists>i'. static_loop N SourceExtent DestExtent source i j destination = (Inr (), i', j', d')
        \<and> \<not> i' < SourceExtent"
proof (induction N source i j destination rule: dyn_loop.induct)
  case (1 N source i destIndex destination)
  note ext = "1.prems"(2,3)
  show ?case
  proof (cases "i < span_size source")
    case False
    with "1.prems" show ?thesis by simp
  next
    case True
    show ?thesis
    proof (cases "destIndex < span_size destination")
      case False
      with True "1.prems" show ?thesis by simp
    next
      case dlt: True
      let ?d = "destination[unat destIndex := source ! unat i]"
      from True dlt "1.prems"(1)
      have run: "dyn_loop N source (i + N) (destIndex + 1) ?d = (Inr (), j', d')"
        by simp
      have "DestExtent = span_size ?d" using ext(2) by simp
      from "1.IH" [OF True dlt run ext(1) this] obtain i' where
        "static_loop N SourceExtent DestExtent source (i + N) (destIndex + 1) ?d
           = (Inr (), i', j', d')"
        and "\<not> i' < SourceExtent"
        by blast
      with True dlt ext show ?thesis by simp
    qed
  qed
qed

lemma dyn_loop_status:
  "fst (dyn_loop N source i j destination) = Inr () \<or>
   fst (dyn_loop N source i j destination) = Inl Undefined_Behaviour"
proof (induction N source i j destination rule: dyn_loop.induct)
  case (1 N source i destIndex destination)
  show ?case
  proof (cases "i < span_size source \<and> destIndex < span_size destination")
    case True
    with "1.IH" show ?thesis by simp
  next
    case False
    then show ?thesis by auto
  qed
qed

text \<open>Line 82 where the sum does not wrap around.\<close>

lemma unat_requiredSize:
  fixes N StartIdx :: "'w::len word"
  assumes n: "0 < unat N"
    and st: "unat StartIdx \<le> length source"
    and cw: "length source - unat StartIdx + unat N - 1 < 2 ^ LENGTH('w)"
  shows "unat (requiredSize N StartIdx source) = steps (length source) (unat StartIdx) (unat N)"
proof -
  let ?S = "length source" and ?s = "unat StartIdx" and ?n = "unat N"
  from n obtain m where m: "?n = Suc m" by (cases ?n) simp_all
  have lt: "?S - ?s + m < 2 ^ LENGTH('w)" using cw m by simp
  have N: "N = of_nat (Suc m)" by (simp add: m [symmetric])
  have s: "StartIdx = of_nat ?s" by simp
  have "(span_size source :: 'w word) - StartIdx + N - 1
          = of_nat ?S - of_nat ?s + of_nat (Suc m) - 1"
    by (simp only: span_size_def N s [symmetric])
  also have "\<dots> = of_nat (?S - ?s + m)"
    using st by simp
  finally have "(span_size source :: 'w word) - StartIdx + N - 1 = of_nat (?S - ?s + m)" .
  then have "unat ((span_size source :: 'w word) - StartIdx + N - 1) = (?S - ?s + m) mod 2 ^ LENGTH('w)"
    by (simp only: unat_of_nat)
  with lt have "unat ((span_size source :: 'w word) - StartIdx + N - 1) = ?S - ?s + m"
    by (simp only: mod_less)
  moreover have "?S - ?s + ?n - 1 = ?S - ?s + m" by (simp add: m)
  ultimately show ?thesis
    by (simp only: requiredSize_def steps_def unat_div)
qed

section \<open>The two overloads without wrap-around\<close>

text \<open>
  Two sums of the code can wrap around: \<open>size - StartIdx + N - 1\<close> in the computation
  of the required size, and \<open>i += N\<close> in the loops. The first hypothesis below on
  \<open>2 ^ LENGTH('w)\<close> excludes the one, the second the other: the first index of
  \<open>StartIdx, StartIdx + N, ...\<close> that is not below the source size is representable.
\<close>

lemma copy_every_nth_dyn_no_wrap:
  fixes N StartIdx :: "'w::len word"
  assumes n: "0 < unat N"
    and st: "unat StartIdx \<le> length source"
    and sl: "length source < 2 ^ LENGTH('w)"
    and dl: "length destination < 2 ^ LENGTH('w)"
    and cw: "length source - unat StartIdx + unat N - 1 < 2 ^ LENGTH('w)"
    and iw: "unat StartIdx + steps (length source) (unat StartIdx) (unat N) * unat N
               < 2 ^ LENGTH('w)"
  shows "copy_every_nth_dyn exc N StartIdx source destination =
          (if length destination < steps (length source) (unat StartIdx) (unat N)
           then (THROW_OR_PANIC exc ''Destination container does not have sufficient size, '',
                 destination)
           else (Inr (),
                 every_nth (unat N) (unat StartIdx) source
                     (steps (length source) (unat StartIdx) (unat N))
                   @ drop (steps (length source) (unat StartIdx) (unat N)) destination))"
proof -
  let ?K = "steps (length source) (unat StartIdx) (unat N)"
  have N: "0 < N" using n by (simp add: word_less_nat_alt)
  have "\<not> span_size source < StartIdx"
    using st by (simp add: word_less_nat_alt unat_span_size [OF sl])
  then have valid: "\<not> (StartIdx > span_size source \<or> StartIdx < 0)" by simp
  have cap: "(requiredSize N StartIdx source > span_size destination) = (length destination < ?K)"
    by (simp add: word_less_nat_alt unat_span_size [OF dl] unat_requiredSize [OF n st cw])
  show ?thesis
  proof (cases "length destination < ?K")
    case True
    then show ?thesis
      using N valid cap
      by (simp add: copy_every_nth_dyn_def THROW_OR_PANIC_def del: dyn_loop.simps)
  next
    case False
    then have "unat (0 :: 'w word) + ?K \<le> length destination" by simp
    from dyn_loop_run [OF n sl dl iw this]
    have "dyn_loop N source StartIdx 0 destination =
            (Inr (), of_nat ?K, every_nth (unat N) (unat StartIdx) source ?K @ drop ?K destination)"
      by simp
    then show ?thesis
      using False N valid cap by (simp add: copy_every_nth_dyn_def del: dyn_loop.simps)
  qed
qed

lemma static_loop_no_wrap:
  fixes N StartIdx :: "'w::len word"
  assumes n: "0 < unat N"
    and sl: "length source < 2 ^ LENGTH('w)"
    and dl: "length destination < 2 ^ LENGTH('w)"
    and iw: "unat StartIdx + steps (length source) (unat StartIdx) (unat N) * unat N
               < 2 ^ LENGTH('w)"
    and room: "steps (length source) (unat StartIdx) (unat N) \<le> length destination"
  shows "\<exists>i'. static_loop N (span_size source) (span_size destination) source StartIdx 0
                 destination =
           (Inr (), i', of_nat (steps (length source) (unat StartIdx) (unat N)),
            every_nth (unat N) (unat StartIdx) source
                (steps (length source) (unat StartIdx) (unat N))
              @ drop (steps (length source) (unat StartIdx) (unat N)) destination)
         \<and> \<not> i' < span_size source"
proof -
  let ?K = "steps (length source) (unat StartIdx) (unat N)"
  from room have "unat (0 :: 'w word) + ?K \<le> length destination" by simp
  from dyn_loop_run [OF n sl dl iw this]
  have "dyn_loop N source StartIdx 0 destination =
          (Inr (), of_nat ?K, every_nth (unat N) (unat StartIdx) source ?K @ drop ?K destination)"
    by simp
  from static_loop_of_dyn [OF this refl refl] show ?thesis .
qed

lemma copy_every_nth_static_no_wrap:
  fixes N StartIdx :: "'w::len word"
  assumes n: "0 < unat N"
    and st: "unat StartIdx < length source"
    and sl: "length source < 2 ^ LENGTH('w)"
    and dl: "length destination < 2 ^ LENGTH('w)"
    and cw: "length source - unat StartIdx + unat N - 1 < 2 ^ LENGTH('w)"
    and iw: "unat StartIdx + steps (length source) (unat StartIdx) (unat N) * unat N
               < 2 ^ LENGTH('w)"
    and room: "steps (length source) (unat StartIdx) (unat N) \<le> length destination"
  shows "copy_every_nth_static N StartIdx (span_size source) (span_size destination)
           source destination =
           (Inr (),
            every_nth (unat N) (unat StartIdx) source
                (steps (length source) (unat StartIdx) (unat N))
              @ drop (steps (length source) (unat StartIdx) (unat N)) destination)"
proof -
  let ?K = "steps (length source) (unat StartIdx) (unat N)"
  have N: "0 < N" using n by (simp add: word_less_nat_alt)
  have a1: "StartIdx < span_size source \<and> StartIdx \<ge> 0"
    using st by (simp add: word_less_nat_alt unat_span_size [OF sl])
  from st have st': "unat StartIdx \<le> length source" by simp
  have "requiredSize N StartIdx source \<le> span_size destination"
    using room by (simp add: word_le_nat_alt unat_span_size [OF dl] unat_requiredSize [OF n st' cw])
  then have a3: "(span_size source - StartIdx + N - 1) div N \<le> (span_size destination :: 'w word)"
    by (simp only: requiredSize_def)
  from static_loop_no_wrap [OF n sl dl iw room] obtain i' where
    "static_loop N (span_size source) (span_size destination) source StartIdx 0 destination =
       (Inr (), i', of_nat ?K, every_nth (unat N) (unat StartIdx) source ?K @ drop ?K destination)"
    by blast
  then show ?thesis
    using a1 N a3 by (simp add: copy_every_nth_static_def del: static_loop.simps)
qed

text \<open>
  In the specification's terms. With both extents the sizes of the spans, \<open>N > 0\<close>,
  \<open>StartIdx < S\<close>, no wrap-around in line 82 or in the indices, and a destination that
  holds the count, both overloads write exactly \<open>ceil((S - StartIdx) / N)\<close> elements,
  the selected ones in order, and leave the rest of the destination as it was; the
  first overload's loop ends with the source exhausted.
\<close>

lemma copy_every_nth_no_wrap_selects:
  fixes N StartIdx :: "'w::len word"
  assumes "0 < N"
    and "unat StartIdx < length source"
    and "length source < 2 ^ LENGTH('w)"
    and "length destination < 2 ^ LENGTH('w)"
    and "length source - unat StartIdx + unat N - 1 < 2 ^ LENGTH('w)"
    and "unat StartIdx + required_count (length source) (unat StartIdx) (unat N) * unat N
           < 2 ^ LENGTH('w)"
    and "required_count (length source) (unat StartIdx) (unat N) \<le> length destination"
  shows "copy_every_nth_static N StartIdx (span_size source) (span_size destination)
           source destination =
           (Inr (),
            every_nth (unat N) (unat StartIdx) source
                (required_count (length source) (unat StartIdx) (unat N))
              @ drop (required_count (length source) (unat StartIdx) (unat N)) destination)"
    and "copy_every_nth_dyn exc N StartIdx source destination =
           (Inr (),
            every_nth (unat N) (unat StartIdx) source
                (required_count (length source) (unat StartIdx) (unat N))
              @ drop (required_count (length source) (unat StartIdx) (unat N)) destination)"
    and "\<exists>i'. static_loop N (span_size source) (span_size destination) source StartIdx 0
                 destination =
           (Inr (), i', of_nat (required_count (length source) (unat StartIdx) (unat N)),
            every_nth (unat N) (unat StartIdx) source
                (required_count (length source) (unat StartIdx) (unat N))
              @ drop (required_count (length source) (unat StartIdx) (unat N)) destination)
         \<and> \<not> i' < span_size source"
proof -
  let ?K = "steps (length source) (unat StartIdx) (unat N)"
  from assms(1) have n: "0 < unat N" by (simp add: word_less_nat_alt)
  have rc: "required_count (length source) (unat StartIdx) (unat N) = ?K"
    by (rule required_count_steps [OF n])
  from assms(6) have iw: "unat StartIdx + ?K * unat N < 2 ^ LENGTH('w)" by (simp only: rc)
  from assms(7) have room: "?K \<le> length destination" by (simp only: rc)
  from assms(2) have st: "unat StartIdx \<le> length source" by simp
  show "copy_every_nth_static N StartIdx (span_size source) (span_size destination)
           source destination =
           (Inr (),
            every_nth (unat N) (unat StartIdx) source
                (required_count (length source) (unat StartIdx) (unat N))
              @ drop (required_count (length source) (unat StartIdx) (unat N)) destination)"
    by (simp only: rc copy_every_nth_static_no_wrap [OF n assms(2,3,4,5) iw room])
  show "copy_every_nth_dyn exc N StartIdx source destination =
           (Inr (),
            every_nth (unat N) (unat StartIdx) source
                (required_count (length source) (unat StartIdx) (unat N))
              @ drop (required_count (length source) (unat StartIdx) (unat N)) destination)"
    using room by (simp add: rc copy_every_nth_dyn_no_wrap [OF n st assms(3,4,5) iw]
        del: dyn_loop.simps)
  show "\<exists>i'. static_loop N (span_size source) (span_size destination) source StartIdx 0
                 destination =
           (Inr (), i', of_nat (required_count (length source) (unat StartIdx) (unat N)),
            every_nth (unat N) (unat StartIdx) source
                (required_count (length source) (unat StartIdx) (unat N))
              @ drop (required_count (length source) (unat StartIdx) (unat N)) destination)
         \<and> \<not> i' < span_size source"
    using static_loop_no_wrap [OF n assms(3,4) iw room] by (simp only: rc)
qed

text \<open>
  With a valid start index and no wrap-around the capacity check of the second overload
  is the comparison with \<open>ceil((S - StartIdx) / N)\<close>, and a destination of exactly
  that length is filled completely.
\<close>

lemma copy_every_nth_dyn_no_wrap_capacity:
  fixes N StartIdx :: "'w::len word"
  assumes "0 < N"
    and "unat StartIdx \<le> length source"
    and "length source < 2 ^ LENGTH('w)"
    and "length destination < 2 ^ LENGTH('w)"
    and "length source - unat StartIdx + unat N - 1 < 2 ^ LENGTH('w)"
    and "unat StartIdx + required_count (length source) (unat StartIdx) (unat N) * unat N
           < 2 ^ LENGTH('w)"
  shows "(fst (copy_every_nth_dyn exc N StartIdx source destination) =
            THROW_OR_PANIC exc ''Destination container does not have sufficient size, '')
           = (length destination < required_count (length source) (unat StartIdx) (unat N))"
    and "length destination = required_count (length source) (unat StartIdx) (unat N) \<Longrightarrow>
           copy_every_nth_dyn exc N StartIdx source destination =
             (Inr (), every_nth (unat N) (unat StartIdx) source (length destination))"
proof -
  let ?K = "steps (length source) (unat StartIdx) (unat N)"
  from assms(1) have n: "0 < unat N" by (simp add: word_less_nat_alt)
  have rc: "required_count (length source) (unat StartIdx) (unat N) = ?K"
    by (rule required_count_steps [OF n])
  from assms(6) have iw: "unat StartIdx + ?K * unat N < 2 ^ LENGTH('w)" by (simp only: rc)
  note run = copy_every_nth_dyn_no_wrap [OF n assms(2,3,4,5) iw, of exc]
  show "(fst (copy_every_nth_dyn exc N StartIdx source destination) =
            THROW_OR_PANIC exc ''Destination container does not have sufficient size, '')
           = (length destination < required_count (length source) (unat StartIdx) (unat N))"
    by (simp add: run rc THROW_OR_PANIC_def del: dyn_loop.simps)
  show "copy_every_nth_dyn exc N StartIdx source destination =
             (Inr (), every_nth (unat N) (unat StartIdx) source (length destination))"
    if "length destination = required_count (length source) (unat StartIdx) (unat N)"
    using that by (simp add: run rc del: dyn_loop.simps)
qed

section \<open>Error signaling\<close>

text \<open>
  C6: the error signaling primitive never returns to its caller. For every message, with
  exceptions enabled it raises an error carrying that message, and otherwise it aborts
  the process; which of the two applies is the build's choice (the preprocessor symbol,
  here the parameter \<open>EXCEPTIONS_ENABLED\<close>), not the call's.
\<close>

theorem THROW_OR_PANIC_never_returns:
  "THROW_OR_PANIC True message = Inl (Thrown message)
   \<and> THROW_OR_PANIC False message = Inl Aborted
   \<and> (\<forall>u. THROW_OR_PANIC EXCEPTIONS_ENABLED message \<noteq> Inr u)"
  by (simp add: THROW_OR_PANIC_def)

section \<open>Validation in the dynamic-extent strided copy\<close>

text \<open>
  C10: a start index exactly equal to the source length is accepted by the
  dynamic-extent strided copy. The required size computes to 0, the loop runs zero
  iterations, and the call returns normally with the destination unchanged, whatever
  the destination is.
\<close>

theorem copy_every_nth_dyn_start_at_end:
  fixes N StartIdx :: "'w::len word"
  assumes "0 < N" and "unat StartIdx = length source"
  shows "requiredSize N StartIdx source = 0
         \<and> dyn_loop N source StartIdx 0 destination = (Inr (), 0, destination)
         \<and> copy_every_nth_dyn exc N StartIdx source destination = (Inr (), destination)"
proof -
  have "length source < 2 ^ LENGTH('w)"
    using assms(2) [symmetric] by (simp only: unsigned_less)
  then have "unat (span_size source :: 'w word) = unat StartIdx"
    by (simp only: unat_span_size assms(2))
  then have e: "span_size source = StartIdx" by (simp only: word_unat_eq_iff)
  from assms(1) have "N - 1 < N" by (simp add: word_less_nat_alt unat_sub word_le_nat_alt
        unat_gt_0 Suc_leI)
  then have req: "requiredSize N StartIdx source = 0"
    by (simp add: requiredSize_def e word_less_nat_alt word_unat_eq_iff unat_div)
  have loop: "dyn_loop N source StartIdx 0 destination = (Inr (), 0, destination)"
    by (simp add: e)
  show ?thesis
    using assms(1) by (simp add: req loop copy_every_nth_dyn_def e)
qed

theorem copy_every_nth_dyn_start_at_end_witness:
  "0 < (2 :: 64 word) \<and> unat (3 :: 64 word) = length [1, 2, 3 :: int]
   \<and> requiredSize (2 :: 64 word) 3 [1, 2, 3 :: int] = 0
   \<and> dyn_loop (2 :: 64 word) [1, 2, 3 :: int] 3 0 [9] = (Inr (), 0, [9])
   \<and> copy_every_nth_dyn True (2 :: 64 word) 3 [1, 2, 3 :: int] [9] = (Inr (), [9])"
proof -
  have h1: "0 < (2 :: 64 word)" by simp
  have h2: "unat (3 :: 64 word) = length [1, 2, 3 :: int]" by simp
  show ?thesis
    using h1 h2 copy_every_nth_dyn_start_at_end [OF h1 h2, of "[9]" True] by simp
qed

text \<open>
  C2: a start index greater than or equal to the source length is to signal an invalid
  start index. The code at a start index equal to the source length (source
  \<open>[1, 2, 3]\<close>, \<open>StartIdx = 3\<close>, \<open>N = 1\<close>) returns normally in both build
  configurations: line 77 tests \<open>StartIdx > size\<close>, where the static-extent overload
  asserts \<open>StartIdx < SourceExtent\<close>.
\<close>

theorem copy_every_nth_dyn_start_equal_size_accepted:
  "length [1, 2, 3 :: int] \<le> unat (3 :: 64 word)
   \<and> copy_every_nth_dyn True (1 :: 64 word) 3 [1, 2, 3 :: int] [7] = (Inr (), [7])
   \<and> copy_every_nth_dyn False (1 :: 64 word) 3 [1, 2, 3 :: int] [7] = (Inr (), [7])"
  by (simp add: copy_every_nth_dyn_def requiredSize_def span_size_def)

text \<open>
  A start index strictly greater than the source length is signalled, whatever the
  destination: the capacity check and the loop are not reached.
\<close>

lemma copy_every_nth_dyn_invalid_start:
  assumes "0 < N" and "span_size source < StartIdx"
  shows "copy_every_nth_dyn exc N StartIdx source destination =
           (THROW_OR_PANIC exc ''Invalid start index'', destination)"
  using assms by (simp add: copy_every_nth_dyn_def THROW_OR_PANIC_def del: dyn_loop.simps)

text \<open>
  C7: when the dynamic-extent strided copy signals a validation failure (invalid start
  index or insufficient destination capacity, as an exception or as an abort), the
  destination is exactly as it was: both checks come before the first write.
\<close>

theorem copy_every_nth_dyn_signal_keeps_destination:
  assumes "copy_every_nth_dyn exc N StartIdx source destination = (Inl f, d')"
    and "f = Aborted \<or> (\<exists>m. f = Thrown m)"
  shows "d' = destination"
proof -
  consider (ill) "\<not> N > 0"
    | (start) "N > 0" "StartIdx > span_size source \<or> StartIdx < 0"
    | (cap) "N > 0" "\<not> (StartIdx > span_size source \<or> StartIdx < 0)"
        "requiredSize N StartIdx source > span_size destination"
    | (run) "N > 0" "\<not> (StartIdx > span_size source \<or> StartIdx < 0)"
        "\<not> requiredSize N StartIdx source > span_size destination"
    by blast
  then show ?thesis
  proof cases
    case ill
    with assms(1) show ?thesis by (simp add: copy_every_nth_dyn_def del: dyn_loop.simps)
  next
    case start
    with assms(1) show ?thesis
      by (simp add: copy_every_nth_dyn_def THROW_OR_PANIC_def del: dyn_loop.simps split: if_splits)
  next
    case cap
    with assms(1) show ?thesis
      by (simp add: copy_every_nth_dyn_def THROW_OR_PANIC_def del: dyn_loop.simps split: if_splits)
  next
    case run
    obtain status destIndex d where
      loop: "dyn_loop N source StartIdx 0 destination = (status, destIndex, d)"
      by (cases "dyn_loop N source StartIdx 0 destination") auto
    with run assms(1) have "status = Inl f"
      by (simp add: copy_every_nth_dyn_def del: dyn_loop.simps)
    moreover from dyn_loop_status [of N source StartIdx 0 destination] loop
    have "status = Inr () \<or> status = Inl Undefined_Behaviour"
      by (simp del: dyn_loop.simps)
    ultimately show ?thesis using assms(2) by auto
  qed
qed

theorem copy_every_nth_dyn_signal_keeps_destination_witness:
  "copy_every_nth_dyn True (2 :: 64 word) 0 [10, 20, 30, 40, 50 :: int] [7, 8]
     = (Inl (Thrown ''Destination container does not have sufficient size, ''), [7, 8])
   \<and> copy_every_nth_dyn False (2 :: 64 word) 6 [10, 20, 30, 40, 50 :: int] [7, 8]
     = (Inl Aborted, [7, 8])"
proof -
  obtain d1 where r1: "copy_every_nth_dyn True (2 :: 64 word) 0 [10, 20, 30, 40, 50 :: int] [7, 8]
     = (Inl (Thrown ''Destination container does not have sufficient size, ''), d1)"
    by (simp add: copy_every_nth_dyn_def requiredSize_def span_size_def THROW_OR_PANIC_def)
  obtain d2 where r2: "copy_every_nth_dyn False (2 :: 64 word) 6 [10, 20, 30, 40, 50 :: int] [7, 8]
     = (Inl Aborted, d2)"
    by (simp add: copy_every_nth_dyn_def requiredSize_def span_size_def THROW_OR_PANIC_def)
  have "d1 = [7, 8]"
    by (rule copy_every_nth_dyn_signal_keeps_destination [OF r1]) simp
  moreover have "d2 = [7, 8]"
    by (rule copy_every_nth_dyn_signal_keeps_destination [OF r2]) simp
  ultimately show ?thesis using r1 r2 by simp
qed

section \<open>Wrap-around of the index arithmetic\<close>

text \<open>
  C1: for every stride \<open>N > 0\<close>, start index \<open>StartIdx < S\<close> and source of length \<open>S\<close>,
  with a destination that is large enough, both overloads are to write exactly
  \<open>ceil((S - StartIdx) / N)\<close> elements, \<open>source[StartIdx], source[StartIdx + N], ...\<close>
  in order. The code at \<open>N = 2^64 - 1\<close>, \<open>StartIdx = 1\<close>, source \<open>[1, 2, 3, 4]\<close> and
  a destination \<open>[0, 0]\<close>, with a 64-bit \<^verbatim>\<open>std::size_t\<close> and both extents the sizes
  of the spans: the count is 1 and the result is to be \<open>[2, 0]\<close>; the assertions and
  both runtime checks pass, \<open>i += N\<close> wraps from 1 to 0, and both overloads also copy
  \<open>source[0]\<close>, giving \<open>[2, 1]\<close>.
\<close>

theorem copy_every_nth_wraps_around:
  "0 < (18446744073709551615 :: 64 word)
   \<and> unat (1 :: 64 word) < length [1, 2, 3, 4 :: int]
   \<and> (4 :: 64 word) = span_size [1, 2, 3, 4 :: int]
   \<and> (2 :: 64 word) = span_size [0, 0 :: int]
   \<and> required_count (length [1, 2, 3, 4 :: int]) (unat (1 :: 64 word))
         (unat (18446744073709551615 :: 64 word)) = 1
   \<and> every_nth (unat (18446744073709551615 :: 64 word)) (unat (1 :: 64 word)) [1, 2, 3, 4 :: int] 1
         @ drop 1 [0, 0] = [2, 0]
   \<and> copy_every_nth_static (18446744073709551615 :: 64 word) 1 4 2 [1, 2, 3, 4 :: int] [0, 0]
       = (Inr (), [2, 1])
   \<and> copy_every_nth_dyn True (18446744073709551615 :: 64 word) 1 [1, 2, 3, 4 :: int] [0, 0]
       = (Inr (), [2, 1])
   \<and> copy_every_nth_dyn False (18446744073709551615 :: 64 word) 1 [1, 2, 3, 4 :: int] [0, 0]
       = (Inr (), [2, 1])"
  by (simp add: required_count_steps steps_def copy_every_nth_static_def copy_every_nth_dyn_def
      requiredSize_def span_size_def every_nth_def)

text \<open>
  The first overload is also instantiated by a call with one span of dynamic extent.
  With a source of dynamic extent \<open>[1, 2]\<close>, a destination of static extent 3, \<open>N = 2\<close>
  and \<open>StartIdx = 0\<close> the count is 1; the assertions pass (\<open>StartIdx\<close> is below
  \<open>dynamic_extent\<close>, and line 59 wraps to 0), the loop condition compares \<open>i\<close> with
  \<open>dynamic_extent\<close>, and the second iteration reads \<open>source[2]\<close>, past the end.
\<close>

lemma copy_every_nth_static_mixed_extent:
  "extent_of (dynamic_extent :: 64 word) [1, 2 :: int]
   \<and> extent_of (3 :: 64 word) [0, 0, 0 :: int]
   \<and> required_count (length [1, 2 :: int]) (unat (0 :: 64 word)) (unat (2 :: 64 word)) = 1
   \<and> copy_every_nth_static (2 :: 64 word) 0 dynamic_extent 3 [1, 2 :: int] [0, 0, 0]
       = (Inl Undefined_Behaviour, [1, 0, 0])"
proof -
  have d: "(dynamic_extent :: 64 word) = 18446744073709551615"
    by (simp add: dynamic_extent_def)
  show ?thesis
    by (simp add: d extent_of_def required_count_steps steps_def copy_every_nth_static_def
        span_size_def)
qed

text \<open>
  C3: with a valid start index (\<open>StartIdx \<le> S\<close>) the dynamic-extent strided copy is to
  signal insufficient destination capacity if and only if the destination length is
  strictly less than \<open>ceil((S - StartIdx) / N)\<close>. The code at \<open>N = 2^64 - 1\<close>,
  \<open>StartIdx = 0\<close>, source \<open>[10, 20]\<close> and an empty destination, with a 64-bit
  \<^verbatim>\<open>std::size_t\<close>: the count is 1, more than the destination holds; line 82 wraps
  to 0, the check passes, nothing is signalled in either build configuration, and the
  loop writes \<open>destination[0]\<close> of the empty destination.
\<close>

theorem copy_every_nth_dyn_capacity_wraps:
  "unat (0 :: 64 word) \<le> length [10, 20 :: int]
   \<and> length ([] :: int list)
       < required_count (length [10, 20 :: int]) (unat (0 :: 64 word))
           (unat (18446744073709551615 :: 64 word))
   \<and> requiredSize (18446744073709551615 :: 64 word) 0 [10, 20 :: int] = 0
   \<and> copy_every_nth_dyn True (18446744073709551615 :: 64 word) 0 [10, 20 :: int] []
       = (Inl Undefined_Behaviour, [])
   \<and> copy_every_nth_dyn False (18446744073709551615 :: 64 word) 0 [10, 20 :: int] []
       = (Inl Undefined_Behaviour, [])
   \<and> fst (copy_every_nth_dyn True (18446744073709551615 :: 64 word) 0 [10, 20 :: int] [])
       \<noteq> THROW_OR_PANIC True ''Destination container does not have sufficient size, ''
   \<and> fst (copy_every_nth_dyn False (18446744073709551615 :: 64 word) 0 [10, 20 :: int] [])
       \<noteq> THROW_OR_PANIC False ''Destination container does not have sufficient size, ''"
  by (simp add: required_count_steps steps_def copy_every_nth_dyn_def
      requiredSize_def span_size_def THROW_OR_PANIC_def)

text \<open>
  C8: under the compile-time constraints (\<open>StartIdx < S\<close>, \<open>N > 0\<close>,
  \<open>D \<ge> ceil((S - StartIdx) / N)\<close>) the bound on \<open>destIndex\<close> in the loop of the
  static-extent strided copy is never to end the loop: the loop is to end because the
  source is exhausted. The code at \<open>N = 2^64 - 1\<close>, \<open>StartIdx = 1\<close>, source
  \<open>[1, 2, 3, 4]\<close> and a destination of length 1, with a 64-bit \<^verbatim>\<open>std::size_t\<close> and
  both extents the sizes of the spans: the constraints hold and the three assertions
  pass, the first iteration writes \<open>destination[0]\<close>, \<open>i += N\<close> wraps to 0, and the
  loop ends with \<open>i = 0 < SourceExtent\<close> and \<open>destIndex = 1 = DestExtent\<close>: on the
  destination bound, with the source not exhausted.
\<close>

theorem static_loop_stops_on_destination:
  "0 < (18446744073709551615 :: 64 word)
   \<and> (1 :: 64 word) < 4
   \<and> (4 :: 64 word) = span_size [1, 2, 3, 4 :: int]
   \<and> (1 :: 64 word) = span_size [0 :: int]
   \<and> required_count (length [1, 2, 3, 4 :: int]) (unat (1 :: 64 word))
         (unat (18446744073709551615 :: 64 word)) \<le> length [0 :: int]
   \<and> fst (copy_every_nth_static (18446744073709551615 :: 64 word) 1 4 1 [1, 2, 3, 4 :: int] [0])
       = Inr ()
   \<and> static_loop (18446744073709551615 :: 64 word) 4 1 [1, 2, 3, 4 :: int] 1 0 [0]
       = (Inr (), 0, 1, [2])
   \<and> (0 :: 64 word) < 4
   \<and> \<not> (1 :: 64 word) < 1"
  by (simp add: required_count_steps steps_def copy_every_nth_static_def span_size_def)

text \<open>
  C9: in the dynamic-extent strided copy every access is to be in bounds whenever both
  validations pass. The code at source \<open>[1, 2, 3, 4]\<close>, \<open>StartIdx = 1\<close>,
  \<open>N = 2^64 - 1\<close> and a destination of length 1, with a 64-bit \<^verbatim>\<open>std::size_t\<close>:
  the start index is valid, line 82 computes 0 (the count is 1, which the destination
  holds), both checks pass, the first iteration writes \<open>destination[0]\<close>, \<open>i\<close>
  wraps to 0 and the second iteration writes \<open>destination[1]\<close>, past the end. The
  loop of the static-extent overload has the bound \<open>destIndex < DestExtent\<close>; this one
  has none.
\<close>

theorem copy_every_nth_dyn_writes_out_of_bounds:
  "\<not> (1 :: 64 word) > span_size [1, 2, 3, 4 :: int]
   \<and> requiredSize (18446744073709551615 :: 64 word) 1 [1, 2, 3, 4 :: int] = 0
   \<and> \<not> requiredSize (18446744073709551615 :: 64 word) 1 [1, 2, 3, 4 :: int] > span_size [0 :: int]
   \<and> required_count (length [1, 2, 3, 4 :: int]) (unat (1 :: 64 word))
         (unat (18446744073709551615 :: 64 word)) = length [0 :: int]
   \<and> copy_every_nth_dyn True (18446744073709551615 :: 64 word) 1 [1, 2, 3, 4 :: int] [0]
       = (Inl Undefined_Behaviour, [2])
   \<and> copy_every_nth_dyn False (18446744073709551615 :: 64 word) 1 [1, 2, 3, 4 :: int] [0]
       = (Inl Undefined_Behaviour, [2])"
  by (simp add: required_count_steps steps_def copy_every_nth_dyn_def
      requiredSize_def span_size_def)

section \<open>The value and the failure of the mean\<close>




text \<open>
  C5: the dynamic-extent mean signals failure, with the message for an empty source, if
  and only if the source is empty; for every nonempty source it returns normally, with
  the accumulated sum divided by the size.
\<close>

theorem mean_dyn_signals_iff_empty:
  fixes fdiv :: "'f \<Rightarrow> 'w::len word \<Rightarrow> 'f"
  assumes "length source < 2 ^ LENGTH('w)"
  shows "(mean_dyn exc fadd fdiv fzero source =
            Inl (if exc then Thrown ''Source container must be non-empty'' else Aborted))
           = (source = [])
         \<and> (source \<noteq> [] \<longrightarrow>
              mean_dyn exc fadd fdiv fzero source =
                Inr (fdiv (accumulate fadd source fzero) (span_size source)))"
proof -
  have "unat (span_size source :: 'w word) = length source"
    by (rule unat_span_size [OF assms])
  then have "((span_size source :: 'w word) = 0) = (source = [])"
    by (simp only: word_unat_eq_iff unat_0 length_0_conv)
  then show ?thesis
    by (simp add: mean_dyn_def THROW_OR_PANIC_def)
qed

theorem mean_dyn_signals_iff_empty_witness:
  "length [2, 4, 6 :: real] < 2 ^ LENGTH(64)
   \<and> mean_dyn True (+) (\<lambda>s (k :: 64 word). s / real (unat k)) 0 [2, 4, 6 :: real] = Inr 4
   \<and> mean_dyn True (+) (\<lambda>s (k :: 64 word). s / real (unat k)) 0 ([] :: real list)
       = Inl (Thrown ''Source container must be non-empty'')"
proof -
  have h: "length [2, 4, 6 :: real] < 2 ^ LENGTH(64)" by simp
  have h0: "length ([] :: real list) < 2 ^ LENGTH(64)" by simp
  show ?thesis
    using h
      mean_dyn_signals_iff_empty [OF h, of True "(+)" "\<lambda>s (k :: 64 word). s / real (unat k)" 0]
      mean_dyn_signals_iff_empty [OF h0, of True "(+)" "\<lambda>s (k :: 64 word). s / real (unat k)" 0]
    by (simp add: span_size_def)
qed

end
